theory Spec2Isabelle
  imports Main
begin

section \<open>Rate-limiting primitive: debounce (src/common/utils/debounce.ts)\<close>

text \<open>
  Time is the event loop's clock in milliseconds. A pending \<open>setTimeout\<close> is an entry
  (timer id, due time, callback) of the event loop's timer list. The two closures that
  \<open>debounce\<close> hands to \<open>setTimeout\<close> are the constructors of \<open>timer_cb\<close>:
  \<open>() => { fn.apply(context, args) }\<close> and \<open>() => { timeoutId = null }\<close>.
  The calling context (\<open>this\<close>) has type \<open>'c\<close>, the argument list type \<open>'a\<close>.
\<close>

datatype ('c, 'a) timer_cb = Invoke 'c 'a | ResetTimeoutId

record ('c, 'a) debounce_state =
  timeoutId :: "nat option"
  timers :: "(nat \<times> nat \<times> ('c, 'a) timer_cb) list"
  nextTimer :: nat

text \<open>The closure state right after \<open>debounce(fn, wait, options)\<close> returns.\<close>

definition debounce :: "('c, 'a) debounce_state" where
  "debounce = \<lparr>timeoutId = None, timers = [], nextTimer = 1\<rparr>"

definition clearTimeout ::
  "nat \<Rightarrow> ('c, 'a) debounce_state \<Rightarrow> ('c, 'a) debounce_state" where
  "clearTimeout i s = s\<lparr>timers := filter (\<lambda>(j, d, cb). j \<noteq> i) (timers s)\<rparr>"

definition setTimeout ::
  "('c, 'a) timer_cb \<Rightarrow> nat \<Rightarrow> nat \<Rightarrow> ('c, 'a) debounce_state
     \<Rightarrow> nat \<times> ('c, 'a) debounce_state" where
  "setTimeout cb delay now s =
     (nextTimer s,
      s\<lparr>timers := timers s @ [(nextTimer s, now + delay, cb)],
        nextTimer := Suc (nextTimer s)\<rparr>)"

text \<open>
  One call \<open>debounced.apply(context, args)\<close> at time \<open>now\<close>. The result is the new
  closure state and the list of executions of \<open>fn\<close> performed synchronously by the call.
\<close>

definition debounced ::
  "nat \<Rightarrow> bool \<Rightarrow> nat \<Rightarrow> 'c \<Rightarrow> 'a \<Rightarrow> ('c, 'a) debounce_state
     \<Rightarrow> ('c, 'a) debounce_state \<times> ('c \<times> 'a) list" where
  "debounced wait immediate now context args s =
     (let s1 = (case timeoutId s of Some i \<Rightarrow> clearTimeout i s | None \<Rightarrow> s)
      in if immediate then
           (let callNow = (timeoutId s1 = None);
                (i, s2) = setTimeout ResetTimeoutId wait now s1
            in (s2\<lparr>timeoutId := Some i\<rparr>, if callNow then [(context, args)] else []))
         else
           (let (i, s2) = setTimeout (Invoke context args) wait now s1
            in (s2\<lparr>timeoutId := Some i\<rparr>, [])))"

definition cancel :: "('c, 'a) debounce_state \<Rightarrow> ('c, 'a) debounce_state" where
  "cancel s =
     (case timeoutId s of
        Some i \<Rightarrow> (clearTimeout i s)\<lparr>timeoutId := None\<rparr>
      | None \<Rightarrow> s)"

text \<open>
  The event loop at time \<open>now\<close>: every timer that is due is removed from the timer list
  and its callback runs, earliest due time first.
\<close>

fun run_cb ::
  "('c, 'a) debounce_state \<times> ('c \<times> 'a) list \<Rightarrow> nat \<times> nat \<times> ('c, 'a) timer_cb
     \<Rightarrow> ('c, 'a) debounce_state \<times> ('c \<times> 'a) list" where
  "run_cb (s, out) (i, d, Invoke c a) = (s, out @ [(c, a)])"
| "run_cb (s, out) (i, d, ResetTimeoutId) = (s\<lparr>timeoutId := None\<rparr>, out)"

definition run_timers ::
  "nat \<Rightarrow> ('c, 'a) debounce_state \<Rightarrow> ('c, 'a) debounce_state \<times> ('c \<times> 'a) list" where
  "run_timers now s =
     foldl run_cb
       (s\<lparr>timers := filter (\<lambda>(i, d, cb). \<not> d \<le> now) (timers s)\<rparr>, [])
       (sort_key (\<lambda>(i, d, cb). d) (filter (\<lambda>(i, d, cb). d \<le> now) (timers s)))"

text \<open>
  A sequence of calls (time, context, arguments) to the debounced function; before each
  call the event loop fires the timers that are due. The second component collects every
  execution of \<open>fn\<close> in order.
\<close>

fun run_calls ::
  "nat \<Rightarrow> bool \<Rightarrow> (nat \<times> 'c \<times> 'a) list \<Rightarrow> ('c, 'a) debounce_state
     \<Rightarrow> ('c, 'a) debounce_state \<times> ('c \<times> 'a) list" where
  "run_calls wait immediate [] s = (s, [])"
| "run_calls wait immediate ((t, c, a) # cs) s =
     (let (s1, out1) = run_timers t s;
          (s2, out2) = debounced wait immediate t c a s1;
          (s3, out3) = run_calls wait immediate cs s2
      in (s3, out1 @ out2 @ out3))"

text \<open>A burst: consecutive calls in time order, each less than \<open>wait\<close> after the one before.\<close>

fun burst :: "nat \<Rightarrow> (nat \<times> 'c \<times> 'a) list \<Rightarrow> bool" where
  "burst wait [] = True"
| "burst wait [c] = True"
| "burst wait (c1 # c2 # cs) =
     (fst c1 \<le> fst c2 \<and> fst c2 < fst c1 + wait \<and> burst wait (c2 # cs))"

section \<open>Channel names (IPC_EVENTS of the shared constants)\<close>

definition CLOSE_WINDOW :: string where "CLOSE_WINDOW = ''close-window''"
definition MINIMIZE_WINDOW :: string where "MINIMIZE_WINDOW = ''minimize-window''"
definition MAXIMIZE_WINDOW :: string where "MAXIMIZE_WINDOW = ''maximize-window''"
definition IS_WINDOW_MAXIMIZED :: string where "IS_WINDOW_MAXIMIZED = ''is-window-maximized''"
definition SET_THEME_MODE :: string where "SET_THEME_MODE = ''set-theme-mode''"
definition GET_THEME_MODE :: string where "GET_THEME_MODE = ''get-theme-mode''"
definition IS_DARK_THEME :: string where "IS_DARK_THEME = ''is-dark-theme''"
definition LOG_DEBUG :: string where "LOG_DEBUG = ''log-debug''"
definition LOG_INFO :: string where "LOG_INFO = ''log-info''"
definition LOG_WARN :: string where "LOG_WARN = ''log-warn''"
definition LOG_ERROR :: string where "LOG_ERROR = ''log-error''"
definition THEME_MODE_UPDATED :: string where "THEME_MODE_UPDATED = ''theme-mode-updated''"

section \<open>Native window handles (Electron's BrowserWindow, an external library)\<close>

text \<open>
  The fields are the native state the services read and write; \<open>webContents\<close> is the
  id of the window's own webContents, which also identifies the window. Electron's rule for a
  handle whose native object is gone: \<open>isDestroyed()\<close> answers, \<open>destroy()\<close> does nothing
  more, every other native method raises "Object has been destroyed".
\<close>

record BrowserWindow =
  webContents :: nat
  destroyed :: bool
  closing :: bool
  minimized :: bool
  maximized :: bool
  maximizable :: bool

datatype error = Object_has_been_destroyed

definition isDestroyed :: "BrowserWindow \<Rightarrow> bool" where
  "isDestroyed w = destroyed w"

definition destroy :: "BrowserWindow \<Rightarrow> BrowserWindow" where
  "destroy w = w\<lparr>destroyed := True\<rparr>"

definition native :: "(BrowserWindow \<Rightarrow> 'r) \<Rightarrow> BrowserWindow \<Rightarrow> error + 'r" where
  "native m w = (if destroyed w then Inl Object_has_been_destroyed else Inr (m w))"

definition win_close :: "BrowserWindow \<Rightarrow> error + BrowserWindow" where
  "win_close = native (\<lambda>w. w\<lparr>closing := True\<rparr>)"

definition minimize :: "BrowserWindow \<Rightarrow> error + BrowserWindow" where
  "minimize = native (\<lambda>w. w\<lparr>minimized := True\<rparr>)"

definition maximize :: "BrowserWindow \<Rightarrow> error + BrowserWindow" where
  "maximize = native (\<lambda>w. w\<lparr>maximized := True\<rparr>)"

definition unmaximize :: "BrowserWindow \<Rightarrow> error + BrowserWindow" where
  "unmaximize = native (\<lambda>w. w\<lparr>maximized := False\<rparr>)"

definition isMaximized :: "BrowserWindow \<Rightarrow> error + bool" where
  "isMaximized = native maximized"

definition isMaximizable :: "BrowserWindow \<Rightarrow> error + bool" where
  "isMaximizable = native maximizable"

section \<open>Per-surface lifecycle (WindowService._setupWinLifecycle)\<close>

text \<open>
  One surface: the window, the listeners \<open>_setupWinLifecycle\<close> attaches to it, the closure
  state of its debounced \<open>updateWinStatus\<close>, the messages delivered to the window's
  webContents by \<open>send\<close> (channel, payload), and the lines written by \<open>logManager.info\<close>.
  A raised error inside a listener or timer callback is an uncaught exception of the host:
  the run stops with \<open>Inl\<close>.
\<close>

datatype listener = UpdateWinStatus | OnClosed

record surface =
  window :: BrowserWindow
  name :: string
  resizeListeners :: "listener list"
  closedListeners :: "listener list"
  updateWinStatus :: "(unit, unit) debounce_state"
  sent :: "(string \<times> bool) list"
  infoLog :: "string list"

definition setupWinLifecycle :: "BrowserWindow \<Rightarrow> string \<Rightarrow> surface" where
  "setupWinLifecycle w n =
     \<lparr>window = w, name = n,
      resizeListeners = [UpdateWinStatus],
      closedListeners = [OnClosed],
      updateWinStatus = debounce,
      sent = [], infoLog = []\<rparr>"

text \<open>
  The function wrapped by the debounce:
  \<open>() => !window?.isDestroyed() && window?.webContents?.send(MAXIMIZE_WINDOW + 'back', window?.isMaximizable())\<close>.
\<close>

definition updateWinStatus_fn :: "surface \<Rightarrow> error + surface" where
  "updateWinStatus_fn s =
     (if \<not> isDestroyed (window s) then
        (case isMaximizable (window s) of
           Inl e \<Rightarrow> Inl e
         | Inr b \<Rightarrow> Inr (s\<lparr>sent := sent s @ [(MAXIMIZE_WINDOW @ ''back'', b)]\<rparr>))
      else Inr s)"

fun apply_fn :: "(unit \<times> unit) list \<Rightarrow> surface \<Rightarrow> error + surface" where
  "apply_fn [] s = Inr s"
| "apply_fn (x # xs) s =
     (case updateWinStatus_fn s of Inl e \<Rightarrow> Inl e | Inr s' \<Rightarrow> apply_fn xs s')"

text \<open>The event loop reaches time \<open>t\<close>: due timers of the surface's debounce fire.\<close>

definition run_loop :: "nat \<Rightarrow> surface \<Rightarrow> error + surface" where
  "run_loop t s =
     (let (d, calls) = run_timers t (updateWinStatus s)
      in apply_fn calls (s\<lparr>updateWinStatus := d\<rparr>))"

text \<open>\<open>emitter.removeListener\<close> removes the most recently added instance, if any.\<close>

definition removeListener :: "listener \<Rightarrow> listener list \<Rightarrow> listener list" where
  "removeListener l ls = rev (remove1 l (rev ls))"

text \<open>The \<open>once('closed', ...)\<close> handler of \<open>_setupWinLifecycle\<close>.\<close>

definition on_closed :: "surface \<Rightarrow> surface" where
  "on_closed s =
     (let s1 = s\<lparr>window := destroy (window s)\<rparr>;
          s2 = s1\<lparr>resizeListeners := removeListener UpdateWinStatus (resizeListeners s1)\<rparr>
      in s2\<lparr>infoLog := infoLog s2 @ [''Window closed: '' @ name s2]\<rparr>)"

fun call_listener :: "nat \<Rightarrow> listener \<Rightarrow> surface \<Rightarrow> error + surface" where
  "call_listener t UpdateWinStatus s =
     (let (d, calls) = debounced 80 False t () () (updateWinStatus s)
      in apply_fn calls (s\<lparr>updateWinStatus := d\<rparr>))"
| "call_listener t OnClosed s = Inr (on_closed s)"

fun call_listeners :: "nat \<Rightarrow> listener list \<Rightarrow> surface \<Rightarrow> error + surface" where
  "call_listeners t [] s = Inr s"
| "call_listeners t (l # ls) s =
     (case call_listener t l s of Inl e \<Rightarrow> Inl e | Inr s' \<Rightarrow> call_listeners t ls s')"

text \<open>
  What the environment does to a surface: the window emits \<open>resize\<close> at time \<open>t\<close>, the
  window emits \<open>closed\<close> at time \<open>t\<close> (its once-listeners are detached, then run), or time
  passes until \<open>t\<close>. Timers that are due run before the event is delivered.
\<close>

datatype event = Resize nat | Closed nat | Tick nat

fun deliver :: "event \<Rightarrow> surface \<Rightarrow> error + surface" where
  "deliver (Resize t) s = call_listeners t (resizeListeners s) s"
| "deliver (Closed t) s = call_listeners t (closedListeners s) (s\<lparr>closedListeners := []\<rparr>)"
| "deliver (Tick t) s = Inr s"

fun time_of :: "event \<Rightarrow> nat" where
  "time_of (Resize t) = t"
| "time_of (Closed t) = t"
| "time_of (Tick t) = t"

definition step :: "event \<Rightarrow> surface \<Rightarrow> error + surface" where
  "step e s = (case run_loop (time_of e) s of Inl err \<Rightarrow> Inl err | Inr s' \<Rightarrow> deliver e s')"

fun run_events :: "event list \<Rightarrow> surface \<Rightarrow> error + surface" where
  "run_events [] s = Inr s"
| "run_events (e # es) s =
     (case step e s of Inl err \<Rightarrow> Inl err | Inr s' \<Rightarrow> run_events es s')"

definition main_window :: BrowserWindow where
  "main_window =
     \<lparr>webContents = 1, destroyed = False, closing = False,
      minimized = False, maximized = False, maximizable = True\<rparr>"

section \<open>The host: WindowService and ThemeService\<close>

datatype ThemeMode = dark | light | system

text \<open>
  Electron's \<open>nativeTheme\<close>: \<open>themeSource\<close> is assigned by the host, \<open>osDark\<close> is what the
  operating system reports, and \<open>shouldUseDarkColors\<close> is computed from the two on every read.
\<close>

record nativeTheme =
  themeSource :: ThemeMode
  osDark :: bool

definition shouldUseDarkColors :: "nativeTheme \<Rightarrow> bool" where
  "shouldUseDarkColors nt =
     (case themeSource nt of dark \<Rightarrow> True | light \<Rightarrow> False | system \<Rightarrow> osDark nt)"

text \<open>
  The host process: every window object created so far (destroyed ones included), the
  native theme, the field \<open>_isDark\<close> of ThemeService, and the messages delivered by
  \<open>webContents.send\<close> as (webContents id, channel, payload).
\<close>

record host =
  windows :: "BrowserWindow list"
  theme :: nativeTheme
  isDark :: bool
  delivered :: "(nat \<times> string \<times> bool) list"

text \<open>
  \<open>BrowserWindow.getAllWindows()\<close> lists the open windows and
  \<open>BrowserWindow.fromWebContents(wc)\<close> finds the open window that owns \<open>wc\<close>, or null;
  a destroyed window is in neither.
\<close>

definition getAllWindows :: "host \<Rightarrow> BrowserWindow list" where
  "getAllWindows h = filter (\<lambda>w. \<not> destroyed w) (windows h)"

definition fromWebContents :: "host \<Rightarrow> nat \<Rightarrow> BrowserWindow option" where
  "fromWebContents h wc = find (\<lambda>w. webContents w = wc) (getAllWindows h)"

text \<open>A native method mutates the window object in place: the host holds the new value.\<close>

definition store :: "host \<Rightarrow> error + BrowserWindow \<Rightarrow> error + host" where
  "store h r =
     (case r of
        Inl e \<Rightarrow> Inl e
      | Inr w \<Rightarrow>
          Inr (h\<lparr>windows :=
                 map (\<lambda>x. if webContents x = webContents w then w else x) (windows h)\<rparr>))"

definition close :: "BrowserWindow option \<Rightarrow> host \<Rightarrow> error + host" where
  "close target h =
     (case target of
        None \<Rightarrow> Inr h
      | Some w \<Rightarrow> store h (win_close w))"

definition toggleMax :: "BrowserWindow option \<Rightarrow> host \<Rightarrow> error + host" where
  "toggleMax target h =
     (case target of
        None \<Rightarrow> Inr h
      | Some w \<Rightarrow>
          (case isMaximized w of
             Inl e \<Rightarrow> Inl e
           | Inr m \<Rightarrow> store h (if m then unmaximize w else maximize w)))"

text \<open>
  An IPC message as the host receives it: the transport-level origin \<open>sender\<close> (the
  webContents the message came from) and whatever arguments the presentation process
  chose to send along.
\<close>

record 'p IpcMainEvent =
  sender :: nat
  args :: "'p list"

definition handleCloseWindow :: "'p IpcMainEvent \<Rightarrow> host \<Rightarrow> error + host" where
  "handleCloseWindow e h = close (fromWebContents h (sender e)) h"

definition handleMinimizeWindow :: "'p IpcMainEvent \<Rightarrow> host \<Rightarrow> error + host" where
  "handleMinimizeWindow e h =
     (case fromWebContents h (sender e) of
        None \<Rightarrow> Inr h
      | Some w \<Rightarrow> store h (minimize w))"

definition handleIsMaximzeWindow :: "'p IpcMainEvent \<Rightarrow> host \<Rightarrow> error + host" where
  "handleIsMaximzeWindow e h = toggleMax (fromWebContents h (sender e)) h"

definition handleIsWindowMaximized :: "'p IpcMainEvent \<Rightarrow> host \<Rightarrow> error + bool" where
  "handleIsWindowMaximized e h =
     (case fromWebContents h (sender e) of
        None \<Rightarrow> Inr False
      | Some w \<Rightarrow> isMaximized w)"

text \<open>
  \<open>ipcMain.on\<close> as registered by \<open>_setupIPcEvents\<close>: a command on a channel runs the
  listener of that channel; a channel without listener does nothing.
\<close>

definition ipcMain_on :: "string \<Rightarrow> 'p IpcMainEvent \<Rightarrow> host \<Rightarrow> error + host" where
  "ipcMain_on channel e h =
     (if channel = CLOSE_WINDOW then handleCloseWindow e h
      else if channel = MINIMIZE_WINDOW then handleMinimizeWindow e h
      else if channel = MAXIMIZE_WINDOW then handleIsMaximzeWindow e h
      else Inr h)"

text \<open>The three request handlers of ThemeService and its \<open>nativeTheme.on('updated')\<close> listener.\<close>

definition handle_SET_THEME_MODE :: "ThemeMode \<Rightarrow> host \<Rightarrow> host \<times> bool" where
  "handle_SET_THEME_MODE mode h =
     (let h' = h\<lparr>theme := (theme h)\<lparr>themeSource := mode\<rparr>\<rparr>
      in (h', shouldUseDarkColors (theme h')))"

definition handle_GET_THEME_MODE :: "host \<Rightarrow> ThemeMode" where
  "handle_GET_THEME_MODE h = themeSource (theme h)"

definition handle_IS_DARK_THEME :: "host \<Rightarrow> bool" where
  "handle_IS_DARK_THEME h = shouldUseDarkColors (theme h)"

definition send :: "string \<Rightarrow> bool \<Rightarrow> host \<Rightarrow> BrowserWindow \<Rightarrow> host" where
  "send channel payload h win =
     h\<lparr>delivered := delivered h @ [(webContents win, channel, payload)]\<rparr>"

definition on_updated :: "host \<Rightarrow> host" where
  "on_updated h =
     (let h1 = h\<lparr>isDark := shouldUseDarkColors (theme h)\<rparr>
      in foldl (\<lambda>h2 win. send THEME_MODE_UPDATED (isDark h2) h2 win) h1 (getAllWindows h1))"

section \<open>The Log Sink (src/main/service/LogService.ts)\<close>

text \<open>
  The log directory as the sweep sees it through \<open>fs\<close>. Times are milliseconds since the
  epoch, as \<open>Date.getTime()\<close> gives them. A directory entry carries what \<open>fs.stat\<close> reports
  (\<open>isFile\<close>, \<open>birthtime\<close>) and the error, if any, that \<open>stat\<close> or \<open>unlink\<close> raises for it
  (permission denied, file in use).
\<close>

datatype fs_error = ENOENT | EACCES | EBUSY

record stats =
  isFile :: bool
  birthtime :: int
  stat_error :: "fs_error option"
  unlink_error :: "fs_error option"

record logdir =
  dir_exists :: bool
  mkdir_error :: "fs_error option"
  readdir_error :: "fs_error option"
  files :: "(string \<times> stats) list"

definition existsSync :: "logdir \<Rightarrow> bool" where
  "existsSync d = dir_exists d"

definition mkdirSync :: "logdir \<Rightarrow> fs_error + logdir" where
  "mkdirSync d =
     (case mkdir_error d of
        Some e \<Rightarrow> Inl e
      | None \<Rightarrow> Inr (d\<lparr>dir_exists := True, files := []\<rparr>))"

definition readdirASync :: "logdir \<Rightarrow> fs_error + string list" where
  "readdirASync d =
     (if \<not> dir_exists d then Inl ENOENT
      else case readdir_error d of
             Some e \<Rightarrow> Inl e
           | None \<Rightarrow> Inr (map fst (files d)))"

definition statASync :: "logdir \<Rightarrow> string \<Rightarrow> fs_error + stats" where
  "statASync d file =
     (case map_of (files d) file of
        None \<Rightarrow> Inl ENOENT
      | Some st \<Rightarrow> (case stat_error st of Some e \<Rightarrow> Inl e | None \<Rightarrow> Inr st))"

definition unlinkASync :: "logdir \<Rightarrow> string \<Rightarrow> fs_error + logdir" where
  "unlinkASync d file =
     (case map_of (files d) file of
        None \<Rightarrow> Inl ENOENT
      | Some st \<Rightarrow>
          (case unlink_error st of
             Some e \<Rightarrow> Inl e
           | None \<Rightarrow> Inr (d\<lparr>files := filter (\<lambda>(n, x). n \<noteq> file) (files d)\<rparr>)))"

text \<open>
  A Log Entry: level, message and the further arguments (a file is named by its name in
  the log directory, an error by its code). The service state: the log
  directory, the entries written so far, the listeners the service has registered with
  \<open>ipcMain.on\<close> (channel and the level its listener logs at), and the periods of the
  intervals it has set.
\<close>

datatype level = Debug | Info | Warn | Error

record LogEntry =
  lvl :: level
  message :: string
  meta :: "string list"

record LogService =
  dir :: logdir
  written :: "LogEntry list"
  ipcListeners :: "(string \<times> level) list"
  intervals :: "int list"

fun show_nat :: "nat \<Rightarrow> string" where
  "show_nat n =
     (if n < 10 then [char_of (48 + n)]
      else show_nat (n div 10) @ [char_of (48 + n mod 10)])"

declare show_nat.simps [simp del]

fun show_error :: "fs_error \<Rightarrow> string" where
  "show_error ENOENT = ''ENOENT''"
| "show_error EACCES = ''EACCES''"
| "show_error EBUSY = ''EBUSY''"

definition write_log :: "level \<Rightarrow> string \<Rightarrow> string list \<Rightarrow> LogService \<Rightarrow> LogService" where
  "write_log l msg m s = s\<lparr>written := written s @ [\<lparr>lvl = l, message = msg, meta = m\<rparr>]\<rparr>"

definition LOG_RETENTION_DAYS :: int where
  "LOG_RETENTION_DAYS = 7"

definition CLEANUP_INTERVAL_MS :: int where
  "CLEANUP_INTERVAL_MS = 24 * 60 * 60 * 1000"

definition endsWith :: "string \<Rightarrow> string \<Rightarrow> bool" where
  "endsWith file suf =
     (length suf \<le> length file \<and> drop (length file - length suf) file = suf)"

text \<open>
  The body of the inner \<open>try\<close> of \<open>_cleanupOldLogs\<close> for one file: the new directory and
  whether the file was deleted, or the error raised by \<open>stat\<close> or \<open>unlink\<close>.
\<close>

definition cleanup_file :: "int \<Rightarrow> logdir \<Rightarrow> string \<Rightarrow> fs_error + logdir \<times> bool" where
  "cleanup_file expirationDate d file =
     (case statASync d file of
        Inl e \<Rightarrow> Inl e
      | Inr st \<Rightarrow>
          if isFile st \<and> birthtime st < expirationDate then
            (case unlinkASync d file of
               Inl e \<Rightarrow> Inl e
             | Inr d' \<Rightarrow> Inr (d', True))
          else Inr (d, False))"

text \<open>The \<open>for\<close> loop over the directory listing, with its per-file \<open>try\<close>/\<open>catch\<close>.\<close>

fun cleanup_loop :: "int \<Rightarrow> string list \<Rightarrow> LogService \<times> nat \<Rightarrow> LogService \<times> nat" where
  "cleanup_loop expirationDate [] (s, deletedCount) = (s, deletedCount)"
| "cleanup_loop expirationDate (file # rest) (s, deletedCount) =
     (if \<not> endsWith file ''.log'' then cleanup_loop expirationDate rest (s, deletedCount)
      else case cleanup_file expirationDate (dir s) file of
             Inl e \<Rightarrow>
               cleanup_loop expirationDate rest
                 (write_log Error ''Failed to cleanup old log file:'' [file, show_error e] s,
                  deletedCount)
           | Inr (d', deleted) \<Rightarrow>
               cleanup_loop expirationDate rest
                 (s\<lparr>dir := d'\<rparr>, if deleted then deletedCount + 1 else deletedCount))"

text \<open>
  The outer \<open>try\<close> block of \<open>_cleanupOldLogs\<close> at time \<open>now\<close>, and the whole method with
  its \<open>catch\<close>; \<open>Inl\<close> is an error that leaves the block or the method.
\<close>

definition cleanup_try :: "int \<Rightarrow> LogService \<Rightarrow> fs_error + LogService" where
  "cleanup_try now s =
     (if \<not> existsSync (dir s) then Inr s
      else
        let expirationDate = now - LOG_RETENTION_DAYS * 24 * 60 * 60 * 1000
        in case readdirASync (dir s) of
             Inl e \<Rightarrow> Inl e
           | Inr fs \<Rightarrow>
               (let (s', deletedCount) = cleanup_loop expirationDate fs (s, 0)
                in if deletedCount > 0 then
                     Inr (write_log Info
                            (''Successfully cleaned up '' @ show_nat deletedCount
                               @ '' old log files.'') [] s')
                   else Inr s'))"

definition cleanupOldLogs :: "int \<Rightarrow> LogService \<Rightarrow> fs_error + LogService" where
  "cleanupOldLogs now s =
     (case cleanup_try now s of
        Inl err \<Rightarrow> Inr (write_log Error ''Failed to cleanup old logs:'' [show_error err] s)
      | Inr s' \<Rightarrow> Inr s')"

text \<open>
  \<open>_setupIpcEvent\<close> registers the four forwarding listeners; the constructor at time
  \<open>now\<close> on the directory \<open>d\<close> (the sweep it starts is asynchronous and is taken
  here as run to its end); and what \<open>ipcMain\<close> does with a command that a presentation
  process sends through \<open>api.logger\<close> of the preload script: the listeners registered for
  the channel run, and with none registered nothing happens.
\<close>

definition setupIpcEvent :: "LogService \<Rightarrow> LogService" where
  "setupIpcEvent s =
     s\<lparr>ipcListeners := ipcListeners s @
          [(LOG_DEBUG, Debug), (LOG_INFO, Info), (LOG_WARN, Warn), (LOG_ERROR, Error)]\<rparr>"

definition LogService_constructor :: "int \<Rightarrow> logdir \<Rightarrow> fs_error + LogService" where
  "LogService_constructor now d =
     (let s0 = \<lparr>dir = d, written = [], ipcListeners = [], intervals = []\<rparr>;
          s1 = (if \<not> existsSync d then
                  (case mkdirSync d of
                     Inl err \<Rightarrow>
                       write_log Error ''Failed to create log directory:'' [show_error err] s0
                   | Inr d' \<Rightarrow> s0\<lparr>dir := d'\<rparr>)
                else s0);
          s2 = write_log Info ''LogService initialized successfully'' [] s1
      in case cleanupOldLogs now s2 of
           Inl err \<Rightarrow> Inl err
         | Inr s3 \<Rightarrow> Inr (s3\<lparr>intervals := intervals s3 @ [CLEANUP_INTERVAL_MS]\<rparr>))"

definition ipcMain_emit ::
  "string \<Rightarrow> string \<Rightarrow> string list \<Rightarrow> LogService \<Rightarrow> LogService" where
  "ipcMain_emit channel msg m s =
     foldl (\<lambda>s' l. write_log l msg m s') s
       (map snd (filter (\<lambda>(c, l). c = channel) (ipcListeners s)))"

fun logger_channel :: "level \<Rightarrow> string" where
  "logger_channel Info = LOG_INFO"
| "logger_channel Error = LOG_ERROR"
| "logger_channel Debug = LOG_DEBUG"
| "logger_channel Warn = LOG_WARN"

definition api_logger :: "level \<Rightarrow> string \<Rightarrow> string list \<Rightarrow> LogService \<Rightarrow> LogService" where
  "api_logger l msg m s = ipcMain_emit (logger_channel l) msg m s"

text \<open>
  The file name \<open>resolvePathFn\<close> gives the day-file: \<open>log-YYYY-MM-DD.log\<close>, the year in
  four digits, month and day padded to two.
\<close>

definition digit :: "char \<Rightarrow> bool" where
  "digit c = (c \<in> set ''0123456789'')"

definition is_day_file :: "string \<Rightarrow> bool" where
  "is_day_file n =
     (length n = 18 \<and> take 4 n = ''log-'' \<and> list_all digit (take 4 (drop 4 n))
      \<and> n ! 8 = CHR ''-'' \<and> list_all digit (take 2 (drop 9 n))
      \<and> n ! 11 = CHR ''-'' \<and> list_all digit (take 2 (drop 12 n))
      \<and> drop 14 n = ''.log'')"

section \<open>Predicates and example states used in the statements\<close>

text \<open>
  A file the sweep with cut-off \<open>expirationDate\<close> can delete: its name ends in \<open>.log\<close>,
  \<open>stat\<close> succeeds on it, it is a regular file born before the cut-off, and \<open>unlink\<close>
  succeeds on it.
\<close>

definition deletable :: "int \<Rightarrow> logdir \<Rightarrow> string \<Rightarrow> bool" where
  "deletable expirationDate d file =
     (endsWith file ''.log'' \<and>
      (case map_of (files d) file of
         None \<Rightarrow> False
       | Some st \<Rightarrow> stat_error st = None \<and> isFile st \<and> birthtime st < expirationDate
                    \<and> unlink_error st = None))"

text \<open>\<open>gone s s'\<close>: in \<open>s'\<close> the window is destroyed and has been sent nothing since \<open>s\<close>.\<close>

definition gone :: "surface \<Rightarrow> surface \<Rightarrow> bool" where
  "gone s s' = (destroyed (window s') \<and> sent s' = sent s)"

text \<open>
  \<open>untouched wc h h'\<close>: from \<open>h\<close> to \<open>h'\<close> nothing changed except, possibly, the window
  whose webContents is \<open>wc\<close>.
\<close>

definition untouched :: "nat \<Rightarrow> host \<Rightarrow> host \<Rightarrow> bool" where
  "untouched wc h h' =
     (filter (\<lambda>x. webContents x \<noteq> wc) (windows h')
        = filter (\<lambda>x. webContents x \<noteq> wc) (windows h)
      \<and> map webContents (windows h') = map webContents (windows h)
      \<and> theme h' = theme h \<and> isDark h' = isDark h \<and> delivered h' = delivered h)"

text \<open>
  The debounce state of a surface 10 ms after a single resize at time 0, the surface in
  that state, and the same surface once its \<open>closed\<close> handler has run.
\<close>

definition pending_timer :: "(unit, unit) debounce_state" where
  "pending_timer = \<lparr>timeoutId = Some 1, timers = [(1, 80, Invoke () ())], nextTimer = 2\<rparr>"

definition resized_surface :: surface where
  "resized_surface = (setupWinLifecycle main_window ''main'')\<lparr>updateWinStatus := pending_timer\<rparr>"

definition closed_surface :: surface where
  "closed_surface =
     \<lparr>window = main_window\<lparr>destroyed := True\<rparr>, name = ''main'',
      resizeListeners = [], closedListeners = [],
      updateWinStatus = pending_timer,
      sent = [], infoLog = [''Window closed: main'']\<rparr>"

text \<open>A host with one destroyed window and two open ones.\<close>

definition three_windows :: host where
  "three_windows =
     \<lparr>windows = [main_window, main_window\<lparr>webContents := 2, destroyed := True\<rparr>,
                 main_window\<lparr>webContents := 3\<rparr>],
      theme = \<lparr>themeSource = dark, osDark = False\<rparr>, isDark = True, delivered = []\<rparr>"

text \<open>
  Log directories: an existing one holding the given files, a regular file born at a
  given time, and the length of a day in milliseconds.
\<close>

definition day :: int where
  "day = 24 * 60 * 60 * 1000"

definition born :: "int \<Rightarrow> stats" where
  "born t = \<lparr>isFile = True, birthtime = t, stat_error = None, unlink_error = None\<rparr>"

definition service_on :: "(string \<times> stats) list \<Rightarrow> LogService" where
  "service_on fs =
     \<lparr>dir = \<lparr>dir_exists = True, mkdir_error = None, readdir_error = None, files = fs\<rparr>,
      written = [], ipcListeners = [], intervals = []\<rparr>"

text \<open>
  A directory with the day-files of yesterday, of eight and of ten days ago, at the time
  \<open>100 * day\<close>; one whose older day-file is in use, followed by an expired one; a
  service whose log directory has been deleted; and the service as its constructor leaves
  it on an empty, existing directory.
\<close>

definition three_day_files :: LogService where
  "three_day_files =
     service_on [(''log-2026-11-02.log'', born (99 * day)),
                 (''log-2026-10-26.log'', born (92 * day)),
                 (''log-2026-10-24.log'', born (90 * day))]"

definition busy_then_expired :: LogService where
  "busy_then_expired =
     service_on [(''log-2026-10-26.log'', (born (92 * day))\<lparr>unlink_error := Some EBUSY\<rparr>),
                 (''log-2026-10-24.log'', born (90 * day))]"

definition directory_deleted :: LogService where
  "directory_deleted = (service_on [])\<lparr>dir := (dir (service_on []))\<lparr>dir_exists := False\<rparr>\<rparr>"

definition started_service :: LogService where
  "started_service =
     (service_on [])
       \<lparr>written := [\<lparr>lvl = Info, message = ''LogService initialized successfully'',
                     meta = []\<rparr>],
        intervals := [CLEANUP_INTERVAL_MS]\<rparr>"

text \<open>The state in the middle of a burst: exactly one pending trailing timer.\<close>

definition armed :: "nat \<Rightarrow> nat \<Rightarrow> 'c \<Rightarrow> 'a \<Rightarrow> ('c, 'a) debounce_state \<Rightarrow> bool" where
  "armed wait t c a s =
     (case timeoutId s of
        None \<Rightarrow> False
      | Some i \<Rightarrow> timers s = [(i, t + wait, Invoke c a)])"

section \<open>Debounce: a burst fires once, with the last call\<close>

lemma run_timers_none_due:
  "list_all (\<lambda>(i, d, cb). now < d) (timers s) \<Longrightarrow> run_timers now s = (s, [])"
proof -
  assume a: "list_all (\<lambda>(i, d, cb). now < d) (timers s)"
  have 1: "filter (\<lambda>(i, d, cb). d \<le> now) (timers s) = []"
    using a by (auto simp: list_all_iff filter_empty_conv)
  have 2: "filter (\<lambda>(i, d, cb). \<not> d \<le> now) (timers s) = timers s"
    using a by (auto simp: list_all_iff intro!: filter_True)
  show ?thesis by (simp add: run_timers_def 1 2)
qed

lemma run_timers_quiescent: "timers s = [] \<Longrightarrow> run_timers now s = (s, [])"
  by (simp add: run_timers_none_due)

lemma debounced_quiescent_armed:
  "timers s = [] \<Longrightarrow> debounced wait False t c a s = (s', out)
     \<Longrightarrow> armed wait t c a s' \<and> out = []"
  by (auto simp: debounced_def armed_def setTimeout_def clearTimeout_def Let_def
           split: option.splits)

lemma debounced_armed_armed:
  "armed wait t0 c0 a0 s \<Longrightarrow> debounced wait False t c a s = (s', out)
     \<Longrightarrow> armed wait t c a s' \<and> out = []"
  by (auto simp: debounced_def armed_def setTimeout_def clearTimeout_def Let_def
           split: option.splits)

lemma run_timers_armed_early:
  "armed wait t0 c a s \<Longrightarrow> t < t0 + wait \<Longrightarrow> run_timers t s = (s, [])"
  by (rule run_timers_none_due) (auto simp: armed_def split: option.splits)

lemma run_timers_armed_due:
  "armed wait t0 c a s \<Longrightarrow> t0 + wait \<le> T \<Longrightarrow>
     snd (run_timers T s) = [(c, a)] \<and> timers (fst (run_timers T s)) = []"
  by (auto simp: armed_def run_timers_def split: option.splits)

lemma run_calls_armed:
  "armed wait t0 c0 a0 s \<Longrightarrow> burst wait ((t0, c0, a0) # cs)
     \<Longrightarrow> snd (run_calls wait False cs s) = []
         \<and> armed wait (fst (last ((t0, c0, a0) # cs))) (fst (snd (last ((t0, c0, a0) # cs))))
              (snd (snd (last ((t0, c0, a0) # cs)))) (fst (run_calls wait False cs s))"
proof (induction cs arbitrary: s t0 c0 a0)
  case Nil
  then show ?case by simp
next
  case (Cons x cs)
  obtain t c a where x: "x = (t, c, a)" by (cases x) auto
  from Cons.prems(2) x have le: "t < t0 + wait" and b: "burst wait ((t, c, a) # cs)"
    by auto
  have rt: "run_timers t s = (s, [])"
    using run_timers_armed_early [OF Cons.prems(1) le] .
  obtain s2 out2 where d: "debounced wait False t c a s = (s2, out2)"
    by (cases "debounced wait False t c a s") auto
  from debounced_armed_armed [OF Cons.prems(1) d]
  have a2: "armed wait t c a s2" and o2: "out2 = []" by auto
  from Cons.IH [OF a2 b] show ?case
    using x rt d o2 by (simp add: case_prod_beta)
qed

text \<open>
  C8. A burst of calls to a debounced function in default (non-immediate) mode, started
  with no timer pending, in which every call comes less than \<open>wait\<close> after the one before:
  the wrapped function is not executed during the burst, nor at any time before the last
  call's time plus \<open>wait\<close>; once the clock has reached that time it has been executed
  exactly once, with the context and the arguments of the last call, and no timer is left.
\<close>

theorem debounce_burst_fires_once:
  assumes "timers s = []" and "cs \<noteq> []" and "burst wait cs"
    and "fst (last cs) + wait \<le> T"
  shows "snd (run_calls wait False cs s) = []
       \<and> (\<forall>T'. T' < fst (last cs) + wait
             \<longrightarrow> snd (run_timers T' (fst (run_calls wait False cs s))) = [])
       \<and> snd (run_timers T (fst (run_calls wait False cs s))) = [snd (last cs)]
       \<and> timers (fst (run_timers T (fst (run_calls wait False cs s)))) = []"
proof -
  obtain t c a cs' where cs: "cs = (t, c, a) # cs'"
    using assms(2) by (cases cs) auto
  obtain s2 out2 where d: "debounced wait False t c a s = (s2, out2)"
    by (cases "debounced wait False t c a s") auto
  from debounced_quiescent_armed [OF assms(1) d]
  have a2: "armed wait t c a s2" and o2: "out2 = []" by auto
  have rt: "run_timers t s = (s, [])" using assms(1) by (rule run_timers_quiescent)
  from run_calls_armed [OF a2] assms(3) cs
  have r: "snd (run_calls wait False cs' s2) = []"
    and ar: "armed wait (fst (last cs)) (fst (snd (last cs))) (snd (snd (last cs)))
               (fst (run_calls wait False cs' s2))"
    by auto
  have eq: "run_calls wait False cs s
              = (fst (run_calls wait False cs' s2), snd (run_calls wait False cs' s2))"
    using cs rt d o2 by (simp add: case_prod_beta)
  have early: "snd (run_timers T' (fst (run_calls wait False cs s))) = []"
    if "T' < fst (last cs) + wait" for T'
    using run_timers_armed_early [OF ar that] eq by simp
  from run_timers_armed_due [OF ar assms(4)]
  show ?thesis using eq r early by simp
qed

theorem debounce_burst_fires_once_witness:
  "timers (debounce :: (nat, nat) debounce_state) = []
   \<and> burst 80 [(0, 7::nat, 0::nat), (2, 7, 1), (4, 7, 2), (6, 7, 3), (8, 7, 4),
                (10, 7, 5), (12, 7, 6), (14, 7, 7), (16, 7, 8), (18, 7, 9)]
   \<and> snd (run_calls 80 False
             [(0, 7::nat, 0::nat), (2, 7, 1), (4, 7, 2), (6, 7, 3), (8, 7, 4),
              (10, 7, 5), (12, 7, 6), (14, 7, 7), (16, 7, 8), (18, 7, 9)] debounce) = []
   \<and> snd (run_timers 97 (fst (run_calls 80 False
             [(0, 7::nat, 0::nat), (2, 7, 1), (4, 7, 2), (6, 7, 3), (8, 7, 4),
              (10, 7, 5), (12, 7, 6), (14, 7, 7), (16, 7, 8), (18, 7, 9)] debounce))) = []
   \<and> snd (run_timers 98 (fst (run_calls 80 False
             [(0, 7::nat, 0::nat), (2, 7, 1), (4, 7, 2), (6, 7, 3), (8, 7, 4),
              (10, 7, 5), (12, 7, 6), (14, 7, 7), (16, 7, 8), (18, 7, 9)] debounce)))
       = [(7, 9)]"
  using debounce_burst_fires_once [of "debounce :: (nat, nat) debounce_state"
      "[(0, 7, 0), (2, 7, 1), (4, 7, 2), (6, 7, 3), (8, 7, 4),
        (10, 7, 5), (12, 7, 6), (14, 7, 7), (16, 7, 8), (18, 7, 9)]" 80 98]
  by (simp add: debounce_def)

section \<open>Surface teardown and the debounced resize notification\<close>

lemma updateWinStatus_fn_destroyed:
  "destroyed (window s) \<Longrightarrow> updateWinStatus_fn s = Inr s"
  by (simp add: updateWinStatus_fn_def isDestroyed_def)

lemma apply_fn_destroyed: "destroyed (window s) \<Longrightarrow> apply_fn calls s = Inr s"
  by (induction calls) (simp_all add: updateWinStatus_fn_destroyed)

lemma run_loop_destroyed:
  "destroyed (window s) \<Longrightarrow>
     run_loop t s = Inr (s\<lparr>updateWinStatus := fst (run_timers t (updateWinStatus s))\<rparr>)"
  by (simp add: run_loop_def case_prod_beta apply_fn_destroyed)

lemma call_listener_destroyed:
  "destroyed (window s) \<Longrightarrow> \<exists>s'. call_listener t l s = Inr s' \<and> gone s s'"
  by (cases l)
     (simp_all add: gone_def case_prod_beta apply_fn_destroyed on_closed_def destroy_def Let_def)

lemma call_listeners_destroyed:
  "destroyed (window s) \<Longrightarrow> \<exists>s'. call_listeners t ls s = Inr s' \<and> gone s s'"
proof (induction ls arbitrary: s)
  case Nil
  then show ?case by (simp add: gone_def)
next
  case (Cons l ls)
  from call_listener_destroyed [OF Cons.prems, of t l]
  obtain s1 where 1: "call_listener t l s = Inr s1" and g: "gone s s1" by blast
  from g have d1: "destroyed (window s1)" by (simp add: gone_def)
  from Cons.IH [OF d1] obtain s2
    where 2: "call_listeners t ls s1 = Inr s2" and g2: "gone s1 s2" by blast
  show ?case using 1 2 g g2 by (simp add: gone_def)
qed

lemma deliver_destroyed:
  assumes "destroyed (window s)"
  shows "\<exists>s'. deliver e s = Inr s' \<and> gone s s'"
proof (cases e)
  case (Resize t)
  then show ?thesis
    using assms call_listeners_destroyed [of s t "resizeListeners s"] by simp
next
  case (Closed t)
  then show ?thesis
    using assms
      call_listeners_destroyed [of "s\<lparr>closedListeners := []\<rparr>" t "closedListeners s"]
    by (simp add: gone_def)
next
  case (Tick t)
  then show ?thesis using assms by (simp add: gone_def)
qed

lemma step_destroyed:
  assumes "destroyed (window s)"
  shows "\<exists>s'. step e s = Inr s' \<and> gone s s'"
proof -
  let ?s1 = "s\<lparr>updateWinStatus := fst (run_timers (time_of e) (updateWinStatus s))\<rparr>"
  have d1: "destroyed (window ?s1)" using assms by simp
  from deliver_destroyed [OF d1, of e]
  obtain s' where "deliver e ?s1 = Inr s'" and "gone ?s1 s'" by blast
  then show ?thesis using run_loop_destroyed [OF assms] by (simp add: step_def gone_def)
qed

lemma run_events_destroyed:
  "destroyed (window s) \<Longrightarrow> \<exists>s'. run_events es s = Inr s' \<and> gone s s'"
proof (induction es arbitrary: s)
  case Nil
  then show ?case by (simp add: gone_def)
next
  case (Cons e es)
  from step_destroyed [OF Cons.prems, of e]
  obtain s1 where 1: "step e s = Inr s1" and g: "gone s s1" by blast
  from g have d1: "destroyed (window s1)" by (simp add: gone_def)
  from Cons.IH [OF d1] obtain s2
    where 2: "run_events es s1 = Inr s2" and g2: "gone s1 s2" by blast
  show ?case using 1 2 g g2 by (simp add: gone_def)
qed

text \<open>
  C2, as stated, fails. A main window is resized at time 0 and its \<open>closed\<close> teardown runs
  at time 10: the window is destroyed and the resize listener is gone, but the debounce
  timer armed by the resize is still pending, due at 80 (\<open>cancel\<close> would have removed it),
  and when the clock reaches 80 the event loop runs its callback.
\<close>

theorem closed_leaves_timer_pending:
  "run_events [Resize 0, Closed 10] (setupWinLifecycle main_window ''main'') = Inr closed_surface
   \<and> timers (updateWinStatus closed_surface) = [(1, 80, Invoke () ())]
   \<and> cancel (updateWinStatus closed_surface) \<noteq> updateWinStatus closed_surface
   \<and> snd (run_timers 80 (updateWinStatus closed_surface)) = [((), ())]"
  by (simp add: setupWinLifecycle_def main_window_def closed_surface_def pending_timer_def
      step_def run_loop_def run_timers_def debounce_def debounced_def setTimeout_def
      clearTimeout_def cancel_def on_closed_def destroy_def removeListener_def Let_def)

text \<open>
  C2, amended. When the \<open>closed\<close> teardown of a surface set up by \<open>_setupWinLifecycle\<close>
  runs, that one step destroys the window and detaches the resize listener (and the
  once-listener itself); it leaves the debounce state as it is, a pending timer included,
  and sends nothing; and whatever happens afterwards (timers firing, further events),
  nothing is sent to the window any more.
\<close>

theorem closed_teardown:
  assumes "closedListeners s = [OnClosed]" and "resizeListeners s = [UpdateWinStatus]"
  shows "\<exists>s'. deliver (Closed t) s = Inr s'
           \<and> destroyed (window s') \<and> resizeListeners s' = [] \<and> closedListeners s' = []
           \<and> updateWinStatus s' = updateWinStatus s
           \<and> sent s' = sent s
           \<and> (\<forall>es. \<exists>s''. run_events es s' = Inr s'' \<and> sent s'' = sent s')"
proof -
  let ?s' = "on_closed (s\<lparr>closedListeners := []\<rparr>)"
  have 1: "deliver (Closed t) s = Inr ?s'" using assms(1) by simp
  have 2: "destroyed (window ?s')" by (simp add: on_closed_def destroy_def Let_def)
  have 3: "resizeListeners ?s' = []"
    using assms(2) by (simp add: on_closed_def removeListener_def Let_def)
  have 4: "closedListeners ?s' = [] \<and> updateWinStatus ?s' = updateWinStatus s
           \<and> sent ?s' = sent s"
    by (simp add: on_closed_def Let_def)
  have 5: "\<exists>s''. run_events es ?s' = Inr s'' \<and> sent s'' = sent ?s'" for es
    using run_events_destroyed [OF 2, of es] by (auto simp: gone_def)
  show ?thesis using 1 2 3 4 5 by blast
qed

theorem closed_teardown_witness:
  "closedListeners resized_surface = [OnClosed]
   \<and> resizeListeners resized_surface = [UpdateWinStatus]
   \<and> (\<exists>s'. deliver (Closed 10) resized_surface = Inr s'
           \<and> destroyed (window s') \<and> resizeListeners s' = [] \<and> closedListeners s' = []
           \<and> updateWinStatus s' = updateWinStatus resized_surface
           \<and> sent s' = sent resized_surface
           \<and> (\<forall>es. \<exists>s''. run_events es s' = Inr s'' \<and> sent s'' = sent s'))"
proof -
  have 1: "closedListeners resized_surface = [OnClosed]"
    by (simp add: resized_surface_def setupWinLifecycle_def)
  have 2: "resizeListeners resized_surface = [UpdateWinStatus]"
    by (simp add: resized_surface_def setupWinLifecycle_def)
  from closed_teardown [OF 1 2, of 10] show ?thesis using 1 2 by blast
qed

text \<open>
  C10. Once the window of a surface is destroyed, no run of the surface sends it anything:
  whatever timers fire and whatever events arrive afterwards, the run raises no error and
  the messages sent to the window stay what they were. The debounce timer firing after
  destruction is the case \<open>Tick\<close>.
\<close>

theorem destroyed_window_receives_nothing:
  assumes "destroyed (window s)"
  shows "\<exists>s'. run_events es s = Inr s' \<and> sent s' = sent s"
  using run_events_destroyed [OF assms, of es] by (auto simp: gone_def)

theorem destroyed_window_receives_nothing_witness:
  "destroyed (window closed_surface)
   \<and> timers (updateWinStatus closed_surface) = [(1, 80, Invoke () ())]
   \<and> (\<exists>s'. run_events [Tick 80, Resize 90, Tick 200] closed_surface = Inr s'
           \<and> sent s' = sent closed_surface)"
proof -
  have 1: "destroyed (window closed_surface)" by (simp add: closed_surface_def)
  have 2: "timers (updateWinStatus closed_surface) = [(1, 80, Invoke () ())]"
    by (simp add: closed_surface_def pending_timer_def)
  from destroyed_window_receives_nothing [OF 1, of "[Tick 80, Resize 90, Tick 200]"]
  show ?thesis using 1 2 by blast
qed

section \<open>Window control commands\<close>

lemma fromWebContents_Some:
  "fromWebContents h wc = Some w \<Longrightarrow> webContents w = wc \<and> \<not> destroyed w"
  by (auto simp: fromWebContents_def getAllWindows_def find_Some_iff dest: nth_mem)

lemma store_untouched:
  "untouched (webContents w) h
     (h\<lparr>windows := map (\<lambda>x. if webContents x = webContents w then w else x) (windows h)\<rparr>)"
proof -
  have 1: "filter (\<lambda>x. webContents x \<noteq> webContents w)
             (map (\<lambda>x. if webContents x = webContents w then w else x) ws)
           = filter (\<lambda>x. webContents x \<noteq> webContents w) ws" for ws
    by (induction ws) auto
  have 2: "map webContents (map (\<lambda>x. if webContents x = webContents w then w else x) ws)
           = map webContents ws" for ws
    by (induction ws) auto
  show ?thesis using 1 2 by (simp add: untouched_def)
qed

lemma store_native_live:
  assumes "\<not> destroyed w" and "webContents (m w) = webContents w"
  shows "\<exists>h'. store h (native m w) = Inr h' \<and> untouched (webContents w) h h'"
  using assms store_untouched [of "m w" h] by (simp add: store_def native_def)

lemma close_untouched:
  "\<exists>h'. close (fromWebContents h wc) h = Inr h' \<and> untouched wc h h'"
proof (cases "fromWebContents h wc")
  case None
  then show ?thesis by (simp add: close_def untouched_def)
next
  case (Some w)
  from fromWebContents_Some [OF Some] have wc: "webContents w = wc" and l: "\<not> destroyed w"
    by simp_all
  from store_native_live [OF l, of "\<lambda>w. w\<lparr>closing := True\<rparr>" h]
  show ?thesis using Some wc by (simp add: close_def win_close_def)
qed

lemma minimize_untouched:
  "\<exists>h'. handleMinimizeWindow e h = Inr h' \<and> untouched (sender e) h h'"
proof (cases "fromWebContents h (sender e)")
  case None
  then show ?thesis by (simp add: handleMinimizeWindow_def untouched_def)
next
  case (Some w)
  from fromWebContents_Some [OF Some]
  have wc: "webContents w = sender e" and l: "\<not> destroyed w" by simp_all
  from store_native_live [OF l, of "\<lambda>w. w\<lparr>minimized := True\<rparr>" h]
  show ?thesis using Some wc by (simp add: handleMinimizeWindow_def minimize_def)
qed

lemma toggleMax_untouched:
  "\<exists>h'. toggleMax (fromWebContents h wc) h = Inr h' \<and> untouched wc h h'"
proof (cases "fromWebContents h wc")
  case None
  then show ?thesis by (simp add: toggleMax_def untouched_def)
next
  case (Some w)
  from fromWebContents_Some [OF Some] have wc: "webContents w = wc" and l: "\<not> destroyed w"
    by simp_all
  have m: "isMaximized w = Inr (maximized w)" using l by (simp add: isMaximized_def native_def)
  show ?thesis
  proof (cases "maximized w")
    case True
    from store_native_live [OF l, of "\<lambda>w. w\<lparr>maximized := False\<rparr>" h]
    show ?thesis using Some wc m True by (simp add: toggleMax_def unmaximize_def)
  next
    case False
    from store_native_live [OF l, of "\<lambda>w. w\<lparr>maximized := True\<rparr>" h]
    show ?thesis using Some wc m False by (simp add: toggleMax_def maximize_def)
  qed
qed

lemma ipcMain_on_untouched:
  "\<exists>h'. ipcMain_on channel e h = Inr h' \<and> untouched (sender e) h h'"
  using close_untouched [of h "sender e"] minimize_untouched [of e h]
    toggleMax_untouched [of h "sender e"]
  by (simp add: ipcMain_on_def handleCloseWindow_def handleIsMaximzeWindow_def untouched_def)

text \<open>
  C9. A command on any channel of \<open>ipcMain.on\<close> (close-window, minimize-window and
  maximize-window are the ones with a listener) never raises, does the same whatever
  arguments the presentation process sent along, and leaves every window other than the
  one whose webContents is the message's sender exactly as it was, in the same place of
  the window list.
\<close>

theorem window_command_origin_only:
  "\<exists>h'. ipcMain_on channel e h = Inr h'
      \<and> ipcMain_on channel (e\<lparr>args := payload\<rparr>) h = Inr h'
      \<and> filter (\<lambda>w. webContents w \<noteq> sender e) (windows h')
          = filter (\<lambda>w. webContents w \<noteq> sender e) (windows h)
      \<and> map webContents (windows h') = map webContents (windows h)"
proof -
  have 1: "ipcMain_on channel (e\<lparr>args := payload\<rparr>) h = ipcMain_on channel e h"
    by (simp add: ipcMain_on_def handleCloseWindow_def handleMinimizeWindow_def
        handleIsMaximzeWindow_def)
  from ipcMain_on_untouched [of channel e h] obtain h'
    where "ipcMain_on channel e h = Inr h'" and "untouched (sender e) h h'" by blast
  then show ?thesis using 1 by (simp add: untouched_def)
qed

lemma close_null: "close None h = Inr h"
  by (simp add: close_def)

text \<open>
  C3 at a handle that is already destroyed: \<open>close\<close> only tests the handle for null, so it
  calls the native \<open>close()\<close> of the destroyed window, which raises.
\<close>

theorem close_destroyed_handle_raises:
  "destroyed (main_window\<lparr>webContents := 2, destroyed := True\<rparr>)
   \<and> close (Some (main_window\<lparr>webContents := 2, destroyed := True\<rparr>)) three_windows
       = Inl Object_has_been_destroyed"
  by (simp add: three_windows_def close_def store_def win_close_def native_def main_window_def)

section \<open>Theme Coordinator\<close>

lemma foldl_send:
  "delivered (foldl (\<lambda>h2 win. send c (isDark h2) h2 win) h ws)
     = delivered h @ map (\<lambda>w. (webContents w, c, isDark h)) ws
   \<and> isDark (foldl (\<lambda>h2 win. send c (isDark h2) h2 win) h ws) = isDark h
   \<and> windows (foldl (\<lambda>h2 win. send c (isDark h2) h2 win) h ws) = windows h
   \<and> theme (foldl (\<lambda>h2 win. send c (isDark h2) h2 win) h ws) = theme h"
  by (induction ws arbitrary: h) (simp_all add: send_def)

text \<open>
  C5. When \<open>nativeTheme\<close> fires \<open>updated\<close>, the listener stores the recomputed
  \<open>shouldUseDarkColors\<close> in \<open>_isDark\<close> and delivers theme-mode-updated with that value
  once to each window that is not destroyed, in the order of the window list, and to no
  other.
\<close>

theorem theme_broadcast_reaches_live_windows:
  "delivered (on_updated h)
     = delivered h @ map (\<lambda>w. (webContents w, THEME_MODE_UPDATED, shouldUseDarkColors (theme h)))
                         (filter (\<lambda>w. \<not> destroyed w) (windows h))
   \<and> isDark (on_updated h) = shouldUseDarkColors (theme h)"
  by (simp add: on_updated_def Let_def foldl_send getAllWindows_def)

text \<open>
  C4. For every mode, the is-dark-theme request that follows a set-theme-mode request
  answers true for dark, false for light and the operating system's value for system, and
  the reply of set-theme-mode is that same boolean.
\<close>

theorem set_theme_mode_then_is_dark:
  "handle_IS_DARK_THEME (fst (handle_SET_THEME_MODE m h))
     = (case m of dark \<Rightarrow> True | light \<Rightarrow> False | system \<Rightarrow> osDark (theme h))
   \<and> snd (handle_SET_THEME_MODE m h) = handle_IS_DARK_THEME (fst (handle_SET_THEME_MODE m h))"
  by (cases m)
     (simp_all add: handle_IS_DARK_THEME_def handle_SET_THEME_MODE_def
        shouldUseDarkColors_def Let_def)

section \<open>Retention sweep\<close>

lemma cleanup_file_unfold:
  "cleanup_file e d file =
     (case map_of (files d) file of
        None \<Rightarrow> Inl ENOENT
      | Some st \<Rightarrow>
          (case stat_error st of
             Some x \<Rightarrow> Inl x
           | None \<Rightarrow>
               if isFile st \<and> birthtime st < e then
                 (case unlink_error st of
                    Some x \<Rightarrow> Inl x
                  | None \<Rightarrow> Inr (d\<lparr>files := filter (\<lambda>(n, x). n \<noteq> file) (files d)\<rparr>, True))
               else Inr (d, False)))"
  by (simp add: cleanup_file_def statASync_def unlinkASync_def split: option.splits)

lemma cleanup_file_Inl:
  "cleanup_file e d file = Inl x \<Longrightarrow> \<not> deletable e d file"
  by (auto simp: cleanup_file_unfold deletable_def split: option.splits if_splits)

lemma cleanup_file_kept:
  "cleanup_file e d file = Inr (d', False) \<Longrightarrow> d' = d \<and> \<not> deletable e d file"
  by (auto simp: cleanup_file_unfold deletable_def split: option.splits if_splits)

lemma cleanup_file_deleted:
  "cleanup_file e d file = Inr (d', True) \<Longrightarrow> endsWith file ''.log'' \<Longrightarrow>
     d' = d\<lparr>files := filter (\<lambda>(n, x). n \<noteq> file) (files d)\<rparr> \<and> deletable e d file"
  by (auto simp: cleanup_file_unfold deletable_def split: option.splits if_splits)

lemma map_of_remove:
  "map_of (filter (\<lambda>(n, x). n \<noteq> file) xs) k = (if k = file then None else map_of xs k)"
  by (induction xs) auto

lemma deletable_remove:
  "deletable e (d\<lparr>files := filter (\<lambda>(n, x). n \<noteq> file) (files d)\<rparr>) k
     = (k \<noteq> file \<and> deletable e d k)"
  by (simp add: deletable_def map_of_remove)

lemma dir_write_log [simp]: "dir (write_log l msg m s) = dir s"
  by (simp add: write_log_def)

lemma cleanup_loop_files:
  "files (dir (fst (cleanup_loop e ns (s, c))))
     = filter (\<lambda>(n, st). \<not> (n \<in> set ns \<and> deletable e (dir s) n)) (files (dir s))"
proof (induction ns arbitrary: s c)
  case Nil
  then show ?case by simp
next
  case (Cons f rest)
  show ?case
  proof (cases "endsWith f ''.log''")
    case False
    then have nd: "\<not> deletable e (dir s) f" by (simp add: deletable_def)
    have "cleanup_loop e (f # rest) (s, c) = cleanup_loop e rest (s, c)"
      using False by simp
    then show ?thesis using Cons.IH [of s c] nd by (auto intro!: filter_cong)
  next
    case True
    show ?thesis
    proof (cases "cleanup_file e (dir s) f")
      case (Inl x)
      from cleanup_file_Inl [OF Inl] have nd: "\<not> deletable e (dir s) f" .
      let ?s1 = "write_log Error ''Failed to cleanup old log file:'' [f, show_error x] s"
      have "cleanup_loop e (f # rest) (s, c) = cleanup_loop e rest (?s1, c)"
        using True Inl by simp
      then show ?thesis using Cons.IH [of ?s1 c] nd by (auto intro!: filter_cong)
    next
      case (Inr r)
      obtain d' b where r: "r = (d', b)" by (cases r) auto
      show ?thesis
      proof (cases b)
        case False
        from cleanup_file_kept Inr r False have d: "d' = dir s" and nd: "\<not> deletable e (dir s) f"
          by auto
        have "cleanup_loop e (f # rest) (s, c) = cleanup_loop e rest (s\<lparr>dir := d'\<rparr>, c)"
          using True Inr r False by simp
        then show ?thesis using Cons.IH [of "s\<lparr>dir := d'\<rparr>" c] nd d by (auto intro!: filter_cong)
      next
        case b: True
        from cleanup_file_deleted [of e "dir s" f d'] Inr r b True
        have d: "d' = (dir s)\<lparr>files := filter (\<lambda>(n, x). n \<noteq> f) (files (dir s))\<rparr>"
          and del: "deletable e (dir s) f" by auto
        have "cleanup_loop e (f # rest) (s, c) = cleanup_loop e rest (s\<lparr>dir := d'\<rparr>, c + 1)"
          using True Inr r b by simp
        then show ?thesis
          using Cons.IH [of "s\<lparr>dir := d'\<rparr>" "c + 1"] del
          by (auto simp: d deletable_remove intro!: filter_cong)
      qed
    qed
  qed
qed


lemma map_of_filter_key:
  "map_of (filter (\<lambda>(n, st). P n) xs) k = (if P k then map_of xs k else None)"
  by (induction xs) auto

lemma cleanup_loop_written_mono:
  "set (written s) \<subseteq> set (written (fst (cleanup_loop e ns (s, c))))"
proof (induction ns arbitrary: s c)
  case Nil
  then show ?case by simp
next
  case (Cons f rest)
  show ?case
  proof (cases "endsWith f ''.log''")
    case False
    then show ?thesis using Cons.IH [of s c] by simp
  next
    case True
    show ?thesis
    proof (cases "cleanup_file e (dir s) f")
      case (Inl x)
      let ?s1 = "write_log Error ''Failed to cleanup old log file:'' [f, show_error x] s"
      have "set (written s) \<subseteq> set (written ?s1)" by (auto simp: write_log_def)
      then show ?thesis using Cons.IH [of ?s1 c] True Inl by auto
    next
      case (Inr r)
      obtain d' b where r: "r = (d', b)" by (cases r) auto
      show ?thesis
        using Cons.IH [of "s\<lparr>dir := d'\<rparr>" "if b then c + 1 else c"] True Inr r by simp
    qed
  qed
qed

lemma cleanup_file_Inl_lookup:
  "map_of (files d1) f = map_of (files d) f \<Longrightarrow>
     (cleanup_file e d1 f = Inl x) = (cleanup_file e d f = Inl x)"
  by (auto simp: cleanup_file_unfold split: option.splits if_splits)

lemma cleanup_file_lookup_other:
  "cleanup_file e d g = Inr (d', b) \<Longrightarrow> g \<noteq> f \<Longrightarrow> map_of (files d') f = map_of (files d) f"
  by (auto simp: cleanup_file_unfold map_of_remove split: option.splits if_splits)

lemma cleanup_loop_logs_failure:
  "f \<in> set ns \<Longrightarrow> endsWith f ''.log'' \<Longrightarrow> cleanup_file e (dir s) f = Inl x \<Longrightarrow>
     \<lparr>lvl = Error, message = ''Failed to cleanup old log file:'', meta = [f, show_error x]\<rparr>
       \<in> set (written (fst (cleanup_loop e ns (s, c))))"
proof (induction ns arbitrary: s c)
  case Nil
  then show ?case by simp
next
  case (Cons g rest)
  show ?case
  proof (cases "g = f")
    case True
    let ?s1 = "write_log Error ''Failed to cleanup old log file:'' [f, show_error x] s"
    have "\<lparr>lvl = Error, message = ''Failed to cleanup old log file:'', meta = [f, show_error x]\<rparr>
            \<in> set (written ?s1)" by (simp add: write_log_def)
    then show ?thesis
      using cleanup_loop_written_mono [of ?s1 e rest c] True Cons.prems by auto
  next
    case False
    then have mem: "f \<in> set rest" using Cons.prems(1) by simp
    show ?thesis
    proof (cases "endsWith g ''.log''")
      case ng: False
      then show ?thesis using Cons.IH [OF mem Cons.prems(2) Cons.prems(3), of c] by simp
    next
      case eg: True
      show ?thesis
      proof (cases "cleanup_file e (dir s) g")
        case (Inl y)
        let ?s1 = "write_log Error ''Failed to cleanup old log file:'' [g, show_error y] s"
        have "cleanup_file e (dir ?s1) f = Inl x" using Cons.prems(3) by simp
        from Cons.IH [OF mem Cons.prems(2) this, of c] show ?thesis using eg Inl by simp
      next
        case (Inr r)
        obtain d' b where r: "r = (d', b)" by (cases r) auto
        from cleanup_file_lookup_other [of e "dir s" g d' b f] Inr r False
        have "map_of (files d') f = map_of (files (dir s)) f" by simp
        from cleanup_file_Inl_lookup [OF this, of e x] Cons.prems(3)
        have "cleanup_file e (dir (s\<lparr>dir := d'\<rparr>)) f = Inl x" by simp
        from Cons.IH [OF mem Cons.prems(2) this, of "if b then c + 1 else c"]
        show ?thesis using eg Inr r by simp
      qed
    qed
  qed
qed

lemma filter_listed:
  "filter (\<lambda>(n, st). \<not> (n \<in> set (map fst xs) \<and> P n)) xs = filter (\<lambda>(n, st). \<not> P n) xs"
  by (rule filter_cong) force+

lemma cleanup_try_present:
  assumes "dir_exists (dir s)" and "readdir_error (dir s) = None"
  shows "\<exists>s'. cleanup_try now s = Inr s'
           \<and> dir s' = dir (fst (cleanup_loop (now - LOG_RETENTION_DAYS * 24 * 60 * 60 * 1000)
                                   (map fst (files (dir s))) (s, 0)))
           \<and> set (written (fst (cleanup_loop (now - LOG_RETENTION_DAYS * 24 * 60 * 60 * 1000)
                                   (map fst (files (dir s))) (s, 0)))) \<subseteq> set (written s')"
  using assms
  by (auto simp: cleanup_try_def existsSync_def readdirASync_def Let_def case_prod_beta
      write_log_def)

text \<open>
  C6, as stated, fails: the sweep does not look at the day-file pattern. A directory that
  holds only \<open>main.log\<close>, born eight days ago, is empty after the sweep, although
  \<open>main.log\<close> is no day-file.
\<close>

theorem sweep_deletes_other_log_files:
  "\<not> is_day_file ''main.log''
   \<and> cleanupOldLogs (100 * day) (service_on [(''main.log'', born (92 * day))])
       = Inr ((service_on [])\<lparr>written :=
                [\<lparr>lvl = Info, message = ''Successfully cleaned up 1 old log files.'',
                  meta = []\<rparr>]\<rparr>)"
  by code_simp

text \<open>
  C6, amended. On an existing, readable log directory the sweep at time \<open>now\<close> returns,
  and the directory then holds exactly the entries that were not deletable: it has removed
  every regular file whose name ends in \<open>.log\<close>, whose birth time is before \<open>now\<close> minus 7
  days and on which \<open>stat\<close> and \<open>unlink\<close> succeed, and has kept every other entry, in
  particular every file born within the last 7 days.
\<close>

theorem retention_sweep_deletes_expired_log_files:
  assumes "dir_exists (dir s)" and "readdir_error (dir s) = None"
  shows "\<exists>s'. cleanupOldLogs now s = Inr s'
           \<and> files (dir s')
               = filter (\<lambda>(n, st). \<not> deletable (now - LOG_RETENTION_DAYS * 24 * 60 * 60 * 1000) (dir s) n)
                   (files (dir s))"
proof -
  from cleanup_try_present [OF assms, of now] obtain s' where
    t: "cleanup_try now s = Inr s'"
    and d: "dir s' = dir (fst (cleanup_loop (now - LOG_RETENTION_DAYS * 24 * 60 * 60 * 1000)
                                   (map fst (files (dir s))) (s, 0)))"
    by blast
  have "files (dir s')
          = filter (\<lambda>(n, st). \<not> deletable (now - LOG_RETENTION_DAYS * 24 * 60 * 60 * 1000) (dir s) n)
              (files (dir s))"
    unfolding d cleanup_loop_files by (rule filter_listed)
  then show ?thesis using t by (simp add: cleanupOldLogs_def)
qed

theorem retention_sweep_deletes_expired_log_files_witness:
  "dir_exists (dir three_day_files) \<and> readdir_error (dir three_day_files) = None
   \<and> (\<exists>s'. cleanupOldLogs (100 * day) three_day_files = Inr s'
           \<and> files (dir s') = [(''log-2026-11-02.log'', born (99 * day))])"
proof -
  have 1: "dir_exists (dir three_day_files)"
    by (simp add: three_day_files_def service_on_def)
  have 2: "readdir_error (dir three_day_files) = None"
    by (simp add: three_day_files_def service_on_def)
  have 3: "filter (\<lambda>(n, st). \<not> deletable (100 * day - LOG_RETENTION_DAYS * 24 * 60 * 60 * 1000)
                                 (dir three_day_files) n)
             (files (dir three_day_files)) = [(''log-2026-11-02.log'', born (99 * day))]"
    by code_simp
  from retention_sweep_deletes_expired_log_files [OF 1 2, of "100 * day"]
  show ?thesis using 1 2 3 by simp
qed

text \<open>
  C7. The sweep always returns and never raises. If the log directory does not exist it
  changes nothing and logs nothing. On an existing, readable directory every deletable
  file is gone afterwards, whatever happened to the other files, and for every listed
  \<open>.log\<close> file on which \<open>stat\<close> or \<open>unlink\<close> raised, an error entry naming the file and
  the error has been logged.
\<close>

theorem sweep_never_throws:
  "\<exists>s'. cleanupOldLogs now s = Inr s'
      \<and> (\<not> dir_exists (dir s) \<longrightarrow> s' = s)
      \<and> (dir_exists (dir s) \<and> readdir_error (dir s) = None \<longrightarrow>
           (\<forall>f. deletable (now - LOG_RETENTION_DAYS * 24 * 60 * 60 * 1000) (dir s) f
                  \<longrightarrow> map_of (files (dir s')) f = None)
         \<and> (\<forall>f x. f \<in> set (map fst (files (dir s))) \<and> endsWith f ''.log''
                    \<and> cleanup_file (now - LOG_RETENTION_DAYS * 24 * 60 * 60 * 1000) (dir s) f = Inl x
                  \<longrightarrow> \<lparr>lvl = Error, message = ''Failed to cleanup old log file:'',
                        meta = [f, show_error x]\<rparr> \<in> set (written s')))"
proof (cases "dir_exists (dir s)")
  case False
  then show ?thesis by (simp add: cleanupOldLogs_def cleanup_try_def existsSync_def)
next
  case True
  show ?thesis
  proof (cases "readdir_error (dir s)")
    case (Some err)
    then show ?thesis using True
      by (simp add: cleanupOldLogs_def cleanup_try_def existsSync_def readdirASync_def)
  next
    case None
    let ?e = "now - LOG_RETENTION_DAYS * 24 * 60 * 60 * 1000"
    let ?r = "fst (cleanup_loop ?e (map fst (files (dir s))) (s, 0))"
    from cleanup_try_present [OF True None, of now] obtain s' where
      t: "cleanup_try now s = Inr s'" and d: "dir s' = dir ?r"
      and w: "set (written ?r) \<subseteq> set (written s')" by blast
    have 1: "map_of (files (dir s')) f = None" if "deletable ?e (dir s) f" for f
    proof -
      have "files (dir s') = filter (\<lambda>(n, st). \<not> (n \<in> set (map fst (files (dir s))) \<and> deletable ?e (dir s) n)) (files (dir s))"
        unfolding d cleanup_loop_files ..
      also have "\<dots> = filter (\<lambda>(n, st). \<not> deletable ?e (dir s) n) (files (dir s))"
        by (rule filter_listed)
      finally show ?thesis using that by (simp add: map_of_filter_key)
    qed
    have 2: "\<lparr>lvl = Error, message = ''Failed to cleanup old log file:'',
              meta = [f, show_error x]\<rparr> \<in> set (written s')"
      if "f \<in> set (map fst (files (dir s)))" "endsWith f ''.log''" "cleanup_file ?e (dir s) f = Inl x"
      for f x
      using cleanup_loop_logs_failure [OF that, of 0] w by blast
    show ?thesis using t True 1 2 by (simp add: cleanupOldLogs_def)
  qed
qed

theorem sweep_never_throws_witness:
  "\<not> dir_exists (dir directory_deleted)
   \<and> (\<exists>s'. cleanupOldLogs (100 * day) directory_deleted = Inr s' \<and> s' = directory_deleted)
   \<and> dir_exists (dir busy_then_expired) \<and> readdir_error (dir busy_then_expired) = None
   \<and> (\<exists>s'. cleanupOldLogs (100 * day) busy_then_expired = Inr s'
           \<and> map_of (files (dir s')) ''log-2026-10-24.log'' = None
           \<and> \<lparr>lvl = Error, message = ''Failed to cleanup old log file:'',
               meta = [''log-2026-10-26.log'', ''EBUSY'']\<rparr> \<in> set (written s'))"
proof -
  let ?e = "100 * day - LOG_RETENTION_DAYS * 24 * 60 * 60 * 1000"
  have m: "\<not> dir_exists (dir directory_deleted)" by (simp add: directory_deleted_def)
  have 1: "dir_exists (dir busy_then_expired) \<and> readdir_error (dir busy_then_expired) = None"
    by (simp add: busy_then_expired_def service_on_def)
  have 2: "deletable ?e (dir busy_then_expired) ''log-2026-10-24.log''" by code_simp
  have 3: "''log-2026-10-26.log'' \<in> set (map fst (files (dir busy_then_expired)))"
    by (simp add: busy_then_expired_def service_on_def)
  have 4: "endsWith ''log-2026-10-26.log'' ''.log''" by code_simp
  have 5: "cleanup_file ?e (dir busy_then_expired) ''log-2026-10-26.log'' = Inl EBUSY"
    by code_simp
  from sweep_never_throws [of "100 * day" directory_deleted] m
  have a: "\<exists>s'. cleanupOldLogs (100 * day) directory_deleted = Inr s' \<and> s' = directory_deleted"
    by blast
  from sweep_never_throws [of "100 * day" busy_then_expired] obtain s' where
    r: "cleanupOldLogs (100 * day) busy_then_expired = Inr s'"
    and d: "\<forall>f. deletable ?e (dir busy_then_expired) f \<longrightarrow> map_of (files (dir s')) f = None"
    and w: "\<forall>f x. f \<in> set (map fst (files (dir busy_then_expired))) \<and> endsWith f ''.log''
                    \<and> cleanup_file ?e (dir busy_then_expired) f = Inl x
                  \<longrightarrow> \<lparr>lvl = Error, message = ''Failed to cleanup old log file:'',
                        meta = [f, show_error x]\<rparr> \<in> set (written s')"
    using 1 by blast
  from d 2 have b1: "map_of (files (dir s')) ''log-2026-10-24.log'' = None" by blast
  from w 3 4 5
  have "\<lparr>lvl = Error, message = ''Failed to cleanup old log file:'',
          meta = [''log-2026-10-26.log'', show_error EBUSY]\<rparr> \<in> set (written s')"
    by blast
  then have b2: "\<lparr>lvl = Error, message = ''Failed to cleanup old log file:'',
                   meta = [''log-2026-10-26.log'', ''EBUSY'']\<rparr> \<in> set (written s')"
    by simp
  show ?thesis using m 1 a r b1 b2 by blast
qed

section \<open>Log commands forwarded from presentation processes\<close>

text \<open>
  C1 on the service as constructed: the constructor never calls \<open>_setupIpcEvent\<close>, so no
  listener is registered for log-debug, log-info, log-warn or log-error, and a log command
  sent through \<open>api.logger\<close> at any of the four levels leaves the service as it was: no
  Log Entry is appended. Had \<open>_setupIpcEvent\<close> run, the entry would have been appended.
\<close>

theorem forwarded_log_entries_are_dropped:
  "LogService_constructor (100 * day) (dir (service_on [])) = Inr started_service
   \<and> ipcListeners started_service = []
   \<and> api_logger Debug ''hello'' [] started_service = started_service
   \<and> api_logger Info ''hello'' [] started_service = started_service
   \<and> api_logger Warn ''hello'' [] started_service = started_service
   \<and> api_logger Error ''hello'' [] started_service = started_service
   \<and> written (api_logger Info ''hello'' [] (setupIpcEvent started_service))
       = written started_service @ [\<lparr>lvl = Info, message = ''hello'', meta = []\<rparr>]"
  by code_simp

end
